theory Spec2Isabelle
  imports Main
begin

section \<open>JavaScript values used by the handlers\<close>

text \<open>
  The handlers of \<^verbatim>\<open>src/src/server.js\<close> compute on JavaScript numbers obtained from
  strings by \<^verbatim>\<open>Number\<close>. A number is modelled as an integer or \<^verbatim>\<open>NaN\<close>; every
  comparison with \<^verbatim>\<open>NaN\<close> is false and every arithmetic operation on it gives
  \<^verbatim>\<open>NaN\<close>, as in the language. The model of \<^verbatim>\<open>Number\<close> covers the strings made of
  decimal digits (and the empty string, which converts to 0); any other string is taken
  to \<^verbatim>\<open>NaN\<close>, so signed, fractional, exponent, hexadecimal and blank-padded literals are
  outside the model.
\<close>

datatype jsnum = Num int | NaN

text \<open>
  \<^verbatim>\<open>Number.MAX_SAFE_INTEGER\<close>, 2^53 - 1: up to it the numbers of the code are the integers
  of the model; beyond it the code rounds. Statements about parsed times bound them by it.
\<close>

definition MAX_SAFE_INTEGER :: int where
  "MAX_SAFE_INTEGER = 9007199254740991"

fun js_add :: "jsnum \<Rightarrow> jsnum \<Rightarrow> jsnum" where
  "js_add (Num a) (Num b) = Num (a + b)"
| "js_add _ _ = NaN"

fun js_sub :: "jsnum \<Rightarrow> jsnum \<Rightarrow> jsnum" where
  "js_sub (Num a) (Num b) = Num (a - b)"
| "js_sub _ _ = NaN"

fun js_mul :: "jsnum \<Rightarrow> jsnum \<Rightarrow> jsnum" where
  "js_mul (Num a) (Num b) = Num (a * b)"
| "js_mul _ _ = NaN"

fun js_lt :: "jsnum \<Rightarrow> jsnum \<Rightarrow> bool" where
  "js_lt (Num a) (Num b) = (a < b)"
| "js_lt _ _ = False"

fun js_le :: "jsnum \<Rightarrow> jsnum \<Rightarrow> bool" where
  "js_le (Num a) (Num b) = (a \<le> b)"
| "js_le _ _ = False"

fun js_gt :: "jsnum \<Rightarrow> jsnum \<Rightarrow> bool" where
  "js_gt (Num a) (Num b) = (a > b)"
| "js_gt _ _ = False"

fun js_ge :: "jsnum \<Rightarrow> jsnum \<Rightarrow> bool" where
  "js_ge (Num a) (Num b) = (a \<ge> b)"
| "js_ge _ _ = False"

text \<open>
  A request field is a JSON string or absent. \<^verbatim>\<open>!b.x\<close> holds for an absent field and
  for the empty string.
\<close>

fun truthy :: "string option \<Rightarrow> bool" where
  "truthy None = False"
| "truthy (Some s) = (s \<noteq> [])"

text \<open>The decimal digits with their values.\<close>

definition digits :: "(char \<times> int) list" where
  "digits = zip ''0123456789'' [0, 1, 2, 3, 4, 5, 6, 7, 8, 9]"

definition digit_val :: "char \<Rightarrow> int option" where
  "digit_val c = map_of digits c"

fun decimal_val :: "int \<Rightarrow> string \<Rightarrow> int option" where
  "decimal_val acc [] = Some acc"
| "decimal_val acc (c # cs) =
     (case digit_val c of None \<Rightarrow> None | Some d \<Rightarrow> decimal_val (10 * acc + d) cs)"

definition js_Number :: "string \<Rightarrow> jsnum" where
  "js_Number s = (case decimal_val 0 s of None \<Rightarrow> NaN | Some n \<Rightarrow> Num n)"

text \<open>\<^verbatim>\<open>s.split(sep)\<close> for a one-character separator: always at least one part.\<close>

fun js_split :: "char \<Rightarrow> string \<Rightarrow> string list" where
  "js_split sep [] = [[]]"
| "js_split sep (c # cs) =
     (if c = sep then [] # js_split sep cs
      else (case js_split sep cs of
              [] \<Rightarrow> [[c]]
            | p # ps \<Rightarrow> (c # p) # ps))"

text \<open>
  \<^verbatim>\<open>const [h, m] = t.split(':').map(Number); const minutes = h * 60 + m;\<close>
  (lines 1160-1163 and 1187-1190). With fewer than two parts \<^verbatim>\<open>m\<close> is
  \<^verbatim>\<open>undefined\<close> and the sum is \<^verbatim>\<open>NaN\<close>; parts after the second are ignored.
\<close>

definition minutes_of :: "string \<Rightarrow> jsnum" where
  "minutes_of t =
     (case map js_Number (js_split (CHR '':'') t) of
        h # m # _ \<Rightarrow> js_add (js_mul h (Num 60)) m
      | _ \<Rightarrow> NaN)"

text \<open>
  Lines 1166-1170: the duration, with the reinterpretation of a negative difference as a
  span that crosses midnight.
\<close>

definition dureeService :: "jsnum \<Rightarrow> jsnum \<Rightarrow> jsnum" where
  "dureeService minutesDebut minutesFin =
     (let d = js_sub minutesFin minutesDebut
      in if js_lt d (Num 0) then js_add (js_sub (Num 1440) minutesDebut) minutesFin else d)"

section \<open>Stored data and the persistence layer\<close>

text \<open>
  The rows the handlers read and write, with the columns they touch. Times of day are
  kept as the strings the client sent; a date is an instant (milliseconds since the
  epoch, the value of a \<^verbatim>\<open>Date\<close>).
\<close>

record ligne =
  l_id :: string
  l_heureDebut :: "string option"
  l_heureFin :: "string option"

record service =
  s_id :: string
  s_sensId :: string
  s_ligneId :: "string option"
  s_heureDebut :: string
  s_heureFin :: string
  s_statut :: string
  s_date :: int

record pointage =
  p_id :: string
  p_serviceId :: string
  p_conducteurId :: string
  p_validatedBy :: string
  p_vehicleType :: "string option"
  p_permisChecked :: bool
  p_chronometerChecked :: bool

record db =
  lignes :: "ligne list"
  services :: "service list"
  pointages :: "pointage list"

text \<open>The persistence calls the two handlers make, in the order they are logged.\<close>

datatype call = LigneFindUnique | ServiceFindFirst | ServiceCreate | ServiceUpdate | PointageCreate

text \<open>
  What a handler run takes from its environment: the clock (\<^verbatim>\<open>new Date()\<close>), the key the
  store gives a created row, and which persistence calls throw in this run (with the
  message), since any \<^verbatim>\<open>await prisma...\<close> may reject. The client library is not part
  of the repository; its calls are modelled on lists of rows: a lookup returns the first
  row that satisfies the filter, an insertion appends the row, and a call that throws
  leaves the store as it was.
\<close>

record env =
  now :: int
  newId :: string
  fault :: "call \<Rightarrow> string option"

text \<open>
  \<^verbatim>\<open>findUnique({ where: { id } })\<close>: the client rejects the call when the key is
  \<^verbatim>\<open>undefined\<close>.
\<close>

definition missing_unique_key :: string where
  "missing_unique_key = ''Argument where needs at least one of id arguments.''"

definition prisma_ligne_findUnique :: "env \<Rightarrow> db \<Rightarrow> string option \<Rightarrow> string + ligne option" where
  "prisma_ligne_findUnique e d i =
     (case fault e LigneFindUnique of
        Some msg \<Rightarrow> Inl msg
      | None \<Rightarrow>
          (case i of
             None \<Rightarrow> Inl missing_unique_key
           | Some k \<Rightarrow> Inr (find (\<lambda>l. l_id l = k) (lignes d))))"

text \<open>
  \<^verbatim>\<open>findFirst({ where: { sensId, date, heureDebut, heureFin } })\<close>: a filter whose value
  is \<^verbatim>\<open>undefined\<close> is left out of the query, so an absent date matches every row.
\<close>

definition prisma_service_findFirst ::
  "env \<Rightarrow> db \<Rightarrow> string \<Rightarrow> int option \<Rightarrow> string \<Rightarrow> string \<Rightarrow> string + service option" where
  "prisma_service_findFirst e d sens dt hdeb hfin =
     (case fault e ServiceFindFirst of
        Some msg \<Rightarrow> Inl msg
      | None \<Rightarrow>
          Inr (find (\<lambda>s. s_sensId s = sens
                        \<and> (case dt of None \<Rightarrow> True | Some t \<Rightarrow> s_date s = t)
                        \<and> s_heureDebut s = hdeb \<and> s_heureFin s = hfin)
                 (services d)))"

definition prisma_service_create :: "env \<Rightarrow> db \<Rightarrow> service \<Rightarrow> string + (service \<times> db)" where
  "prisma_service_create e d row =
     (case fault e ServiceCreate of
        Some msg \<Rightarrow> Inl msg
      | None \<Rightarrow> Inr (row, d\<lparr>services := services d @ [row]\<rparr>))"

section \<open>POST /api/services-hierarchie\<close>

record body =
  b_sensId :: "string option"
  b_ligneId :: "string option"
  b_heureDebut :: "string option"
  b_heureFin :: "string option"
  b_statut :: "string option"
  b_date :: "int option"

text \<open>
  \<open>b_date\<close> is the instant \<^verbatim>\<open>new Date(b.date)\<close> when the request carries a date, and
  \<open>None\<close> when \<^verbatim>\<open>b.date\<close> is absent. The 400 replies of the handler, by message:
\<close>

datatype error =
    MissingFields
  | DurationExceeds
  | EndNotAfterStart
  | StartOutsideWindow string string
  | CannotEndAfter string
  | MustStartAtOrAfter string
  | MustEndBeforeOrAt string
  | ChampsRequisManquants "string list"
  | Thrown string

datatype reply = Created service | Duplicate service

definition Planifiee :: string where
  "Planifiee = ''Planifi'' @ [CHR 0xC3, CHR 0xA9] @ ''e''"

definition Terminee :: string where
  "Terminee = ''Termin'' @ [CHR 0xC3, CHR 0xA9] @ ''e''"

text \<open>
  Lines 1186-1233: the check against the line's operating hours. \<open>None\<close> means the
  handler falls through to the duplicate lookup.
\<close>

definition check_ligne :: "ligne option \<Rightarrow> jsnum \<Rightarrow> jsnum \<Rightarrow> error option" where
  "check_ligne found minutesDebut minutesFin =
     (case found of
        None \<Rightarrow> None
      | Some l \<Rightarrow>
          (case (l_heureDebut l, l_heureFin l) of
             (Some ld, Some lf) \<Rightarrow>
               if ld = [] \<or> lf = [] then None
               else
                 let minutesLigneDebut = minutes_of ld;
                     minutesLigneFin = minutes_of lf;
                     lignePasseMinuit = js_lt minutesLigneFin minutesLigneDebut
                 in
                   if lignePasseMinuit then
                     let ends =
                           (if js_gt minutesFin minutesLigneFin
                               \<and> js_ge minutesDebut minutesLigneDebut
                               \<and> js_lt minutesFin minutesDebut
                            then Some (CannotEndAfter lf) else None)
                     in
                       if js_ge minutesDebut minutesLigneDebut then ends
                       else if js_le minutesDebut minutesLigneFin then ends
                       else Some (StartOutsideWindow ld lf)
                   else
                     if js_lt minutesDebut minutesLigneDebut then Some (MustStartAtOrAfter ld)
                     else if js_gt minutesFin minutesLigneFin then Some (MustEndBeforeOrAt lf)
                     else None
           | _ \<Rightarrow> None))"

text \<open>
  Lines 1235-1262: the duplicate lookup and the insertion. The calls listed include the
  line lookup that precedes them in the handler.
\<close>

definition anti_duplication ::
  "env \<Rightarrow> db \<Rightarrow> body \<Rightarrow> string \<Rightarrow> string \<Rightarrow> string \<Rightarrow> (error + reply) \<times> db \<times> call list" where
  "anti_duplication e d b sens hdeb hfin =
     (case prisma_service_findFirst e d sens (b_date b) hdeb hfin of
        Inl msg \<Rightarrow> (Inl (Thrown msg), d, [LigneFindUnique, ServiceFindFirst])
      | Inr (Some existing) \<Rightarrow> (Inr (Duplicate existing), d, [LigneFindUnique, ServiceFindFirst])
      | Inr None \<Rightarrow>
          (case prisma_service_create e d
                  \<lparr> s_id = newId e, s_sensId = sens, s_ligneId = b_ligneId b,
                    s_heureDebut = hdeb, s_heureFin = hfin,
                    s_statut = (case b_statut b of Some st \<Rightarrow> if st = [] then Planifiee else st
                                | None \<Rightarrow> Planifiee),
                    s_date = (case b_date b of Some t \<Rightarrow> t | None \<Rightarrow> now e) \<rparr> of
             Inl msg \<Rightarrow> (Inl (Thrown msg), d, [LigneFindUnique, ServiceFindFirst, ServiceCreate])
           | Inr (row, d') \<Rightarrow>
               (Inr (Created row), d', [LigneFindUnique, ServiceFindFirst, ServiceCreate])))"

text \<open>
  The handler (lines 1152-1267). The result is the reply, the store after the request and
  the persistence calls made, in order.
\<close>

definition post_services_hierarchie ::
  "env \<Rightarrow> db \<Rightarrow> body \<Rightarrow> (error + reply) \<times> db \<times> call list" where
  "post_services_hierarchie e d b =
     (case (b_sensId b, b_heureDebut b, b_heureFin b) of
        (Some sens, Some hdeb, Some hfin) \<Rightarrow>
          if sens = [] \<or> hdeb = [] \<or> hfin = [] then (Inl MissingFields, d, [])
          else
            let minutesDebut = minutes_of hdeb;
                minutesFin = minutes_of hfin;
                duree = dureeService minutesDebut minutesFin
            in
              if js_gt duree (Num 600) then (Inl DurationExceeds, d, [])
              else if js_le duree (Num 0) then (Inl EndNotAfterStart, d, [])
              else
                (case prisma_ligne_findUnique e d (b_ligneId b) of
                   Inl msg \<Rightarrow> (Inl (Thrown msg), d, [LigneFindUnique])
                 | Inr found \<Rightarrow>
                     (case check_ligne found minutesDebut minutesFin of
                        Some err \<Rightarrow> (Inl err, d, [LigneFindUnique])
                      | None \<Rightarrow> anti_duplication e d b sens hdeb hfin))
      | _ \<Rightarrow> (Inl MissingFields, d, []))"

text \<open>
  The times the specification calls well formed: two digits, a colon, two digits, with the
  hour at most 23 and the minute at most 59.
\<close>

definition wf_hhmm :: "string \<Rightarrow> bool" where
  "wf_hhmm t =
     (case t of
        [a, b, c, d, e] \<Rightarrow>
          c = CHR '':'' \<and>
          (case (digit_val a, digit_val b, digit_val d, digit_val e) of
             (Some h1, Some h2, Some m1, Some m2) \<Rightarrow> 10 * h1 + h2 \<le> 23 \<and> 10 * m1 + m2 \<le> 59
           | _ \<Rightarrow> False)
      | _ \<Rightarrow> False)"

text \<open>The number of rows a run tried to insert.\<close>

definition writes :: "call list \<Rightarrow> nat" where
  "writes cs = length (filter (\<lambda>c. c = ServiceCreate \<or> c = PointageCreate) cs)"

section \<open>POST /api/pointages\<close>

record pbody =
  pb_serviceId :: "string option"
  pb_conducteurId :: "string option"
  pb_validatedBy :: "string option"
  pb_vehicleType :: "string option"
  pb_permisChecked :: bool
  pb_chronometerChecked :: bool

text \<open>
  \<^verbatim>\<open>prisma.service.update({ where: { id }, data: { statut } })\<close> rejects when no row has
  the key; otherwise the row is rewritten in place.
\<close>

definition record_not_found :: string where
  "record_not_found = ''Record to update not found.''"

definition prisma_service_update :: "env \<Rightarrow> db \<Rightarrow> string \<Rightarrow> string \<Rightarrow> string + (service \<times> db)" where
  "prisma_service_update e d i st =
     (case fault e ServiceUpdate of
        Some msg \<Rightarrow> Inl msg
      | None \<Rightarrow>
          (case find (\<lambda>s. s_id s = i) (services d) of
             None \<Rightarrow> Inl record_not_found
           | Some row \<Rightarrow>
               Inr (row\<lparr>s_statut := st\<rparr>,
                    d\<lparr>services := map (\<lambda>s. if s_id s = i then s\<lparr>s_statut := st\<rparr> else s) (services d)\<rparr>)))"

definition prisma_pointage_create :: "env \<Rightarrow> db \<Rightarrow> pointage \<Rightarrow> string + (pointage \<times> db)" where
  "prisma_pointage_create e d row =
     (case fault e PointageCreate of
        Some msg \<Rightarrow> Inl msg
      | None \<Rightarrow> Inr (row, d\<lparr>pointages := pointages d @ [row]\<rparr>))"

text \<open>Lines 903-906: the names of the required fields that are absent.\<close>

definition missing :: "pbody \<Rightarrow> string list" where
  "missing b =
     (if truthy (pb_serviceId b) then [] else [''serviceId''])
     @ (if truthy (pb_conducteurId b) then [] else [''conducteurId''])
     @ (if truthy (pb_validatedBy b) then [] else [''validatedBy''])"

text \<open>
  The handler (lines 900-935): the service is marked finished first, the check-in row is
  inserted second, and the \<^verbatim>\<open>catch\<close> only answers 400.
\<close>

definition post_pointages :: "env \<Rightarrow> db \<Rightarrow> pbody \<Rightarrow> (error + pointage) \<times> db \<times> call list" where
  "post_pointages e d b =
     (case (pb_serviceId b, pb_conducteurId b, pb_validatedBy b) of
        (Some sid, Some cid, Some vb) \<Rightarrow>
          if missing b \<noteq> [] then (Inl (ChampsRequisManquants (missing b)), d, [])
          else
            (case prisma_service_update e d sid Terminee of
               Inl msg \<Rightarrow> (Inl (Thrown msg), d, [ServiceUpdate])
             | Inr (updatedService, d1) \<Rightarrow>
                 (case prisma_pointage_create e d1
                         \<lparr> p_id = newId e, p_serviceId = sid, p_conducteurId = cid,
                           p_validatedBy = vb,
                           p_vehicleType = (if truthy (pb_vehicleType b) then pb_vehicleType b else None),
                           p_permisChecked = pb_permisChecked b,
                           p_chronometerChecked = pb_chronometerChecked b \<rparr> of
                    Inl msg \<Rightarrow> (Inl (Thrown msg), d1, [ServiceUpdate, PointageCreate])
                  | Inr (row, d2) \<Rightarrow> (Inr row, d2, [ServiceUpdate, PointageCreate])))
      | _ \<Rightarrow> (Inl (ChampsRequisManquants (missing b)), d, []))"

section \<open>Readiness\<close>

text \<open>
  A request as the middleware chain sees it: the method, the path, and whether
  \<^verbatim>\<open>express.json()\<close> (line 62) accepts its body.
\<close>

record request =
  req_method :: string
  req_path :: string
  req_json_ok :: bool

text \<open>What the chain does with a request: answer it with a status, or hand it to the routes.\<close>

datatype outcome = Responded nat | Routed

definition noDbPaths :: "string list" where
  "noDbPaths = [''/'', ''/health'', ''/api/today'', ''/api/server-time'', ''/api/cors-test'']"

text \<open>
  Lines 45-61: the CORS headers; a preflight is answered at once. (The \<^verbatim>\<open>cors\<close> package
  of line 42 answers a preflight with the same status, \<^verbatim>\<open>optionsSuccessStatus: 200\<close>.)
\<close>

definition cors_headers :: "request \<Rightarrow> nat option" where
  "cors_headers r = (if req_method r = ''OPTIONS'' then Some 200 else None)"

text \<open>
  Line 62 with the global error handler of lines 1468-1483: a body the parser rejects goes
  to the error handler, which answers 500.
\<close>

definition json_parser :: "request \<Rightarrow> nat option" where
  "json_parser r = (if req_json_ok r then None else Some 500)"

text \<open>Lines 73-78.\<close>

definition db_guard :: "bool \<Rightarrow> request \<Rightarrow> nat option" where
  "db_guard ready r =
     (if \<not> ready \<and> req_path r \<notin> set noDbPaths then Some 503 else None)"

definition middleware :: "bool \<Rightarrow> request \<Rightarrow> outcome" where
  "middleware ready r =
     (case cors_headers r of
        Some st \<Rightarrow> Responded st
      | None \<Rightarrow>
          (case json_parser r of
             Some st \<Rightarrow> Responded st
           | None \<Rightarrow>
               (case db_guard ready r of
                  Some st \<Rightarrow> Responded st
                | None \<Rightarrow> Routed)))"

text \<open>
  The process state: whether the client object was constructed (lines 16-24) and the
  flag \<^verbatim>\<open>prismaReady\<close> (line 13), false when the module is loaded.
\<close>

record server =
  prisma :: bool
  prismaReady :: bool

datatype probe = ProbeOk | ProbeRejected | ProbeTimeout

definition boot :: "bool \<Rightarrow> server" where
  "boot client = \<lparr> prisma = client, prismaReady = False \<rparr>"

text \<open>
  \<^verbatim>\<open>startServer\<close> (lines 1507-1535): the flag is set after the probe query wins the race
  against the 5 s timer; a missing client, a rejected query and the timer all end in the
  \<^verbatim>\<open>catch\<close>, which leaves the flag as it was.
\<close>

definition startServer :: "probe \<Rightarrow> server \<Rightarrow> server" where
  "startServer p s =
     (if \<not> prisma s then s
      else (case p of ProbeOk \<Rightarrow> s\<lparr>prismaReady := True\<rparr> | _ \<Rightarrow> s))"

text \<open>
  The events of a process: the call of \<^verbatim>\<open>startServer\<close> and the requests. No route
  handler assigns the flag.
\<close>

datatype event = Start probe | Request request

fun step :: "server \<Rightarrow> event \<Rightarrow> server \<times> outcome option" where
  "step s (Start p) = (startServer p s, None)"
| "step s (Request r) = (s, Some (middleware (prismaReady s) r))"

section \<open>Example data\<close>

text \<open>
  An environment in which no persistence call throws, an empty store, stores holding one
  line with a day window (08:00-20:00) or a night window (05:00-02:00), and a request for
  a trip on that line.
\<close>

definition e0 :: env where
  "e0 = \<lparr> now = 5000, newId = ''new'', fault = (\<lambda>_. None) \<rparr>"

definition db0 :: db where
  "db0 = \<lparr> lignes = [], services = [], pointages = [] \<rparr>"

definition db_day :: db where
  "db_day = \<lparr> lignes = [\<lparr> l_id = ''L1'', l_heureDebut = Some ''08:00'', l_heureFin = Some ''20:00'' \<rparr>],
              services = [], pointages = [] \<rparr>"

definition db_night :: db where
  "db_night = \<lparr> lignes = [\<lparr> l_id = ''L1'', l_heureDebut = Some ''05:00'', l_heureFin = Some ''02:00'' \<rparr>],
                services = [], pointages = [] \<rparr>"

definition trip :: "string \<Rightarrow> string \<Rightarrow> body" where
  "trip hdeb hfin =
     \<lparr> b_sensId = Some ''S1'', b_ligneId = Some ''L1'', b_heureDebut = Some hdeb,
       b_heureFin = Some hfin, b_statut = None, b_date = Some 1000 \<rparr>"

text \<open>The row the insertion builds for such a request.\<close>

definition created :: "string \<Rightarrow> string \<Rightarrow> service" where
  "created hdeb hfin =
     \<lparr> s_id = ''new'', s_sensId = ''S1'', s_ligneId = Some ''L1'', s_heureDebut = hdeb,
       s_heureFin = hfin, s_statut = Planifiee, s_date = 1000 \<rparr>"

text \<open>The day-line store after a trip 08:00-09:00 was created on the date 1000.\<close>

definition db_dup :: db where
  "db_dup = db_day\<lparr>services := [created ''08:00'' ''09:00'']\<rparr>"

text \<open>
  The day-line store holding a trip 08:00-09:00 dated 2024-01-01T00:00Z, an environment
  whose clock reads 2024-03-01T12:00Z, and the same trip requested without a date.
\<close>

definition stored_trip :: service where
  "stored_trip =
     \<lparr> s_id = ''old'', s_sensId = ''S1'', s_ligneId = Some ''L1'', s_heureDebut = ''08:00'',
       s_heureFin = ''09:00'', s_statut = Planifiee, s_date = 1704067200000 \<rparr>"

definition db_january :: db where
  "db_january = db_day\<lparr>services := [stored_trip]\<rparr>"

definition e_march :: env where
  "e_march = \<lparr> now = 1709294400000, newId = ''new'', fault = (\<lambda>_. None) \<rparr>"

definition undated :: body where
  "undated = (trip ''08:00'' ''09:00'')\<lparr>b_date := None\<rparr>"

text \<open>A check-in request for the trip of \<open>db_dup\<close>, and an environment in which the insertion of the
  check-in row is refused.\<close>

definition pb0 :: pbody where
  "pb0 = \<lparr> pb_serviceId = Some ''new'', pb_conducteurId = Some ''C1'', pb_validatedBy = Some ''Chef'',
           pb_vehicleType = None, pb_permisChecked = True, pb_chronometerChecked = False \<rparr>"

definition e_fail :: env where
  "e_fail = \<lparr> now = 5000, newId = ''p1'',
              fault = (\<lambda>c. if c = PointageCreate then Some ''Foreign key constraint failed'' else None) \<rparr>"

text \<open>Two requests for a path that needs the database.\<close>

definition preflight :: request where
  "preflight = \<lparr> req_method = ''OPTIONS'', req_path = ''/api/vehicles'', req_json_ok = True \<rparr>"

definition list_vehicles :: request where
  "list_vehicles = \<lparr> req_method = ''GET'', req_path = ''/api/vehicles'', req_json_ok = True \<rparr>"

section \<open>Parsing times of day\<close>

lemma digit_val_range: "digit_val c = Some v \<Longrightarrow> 0 \<le> v \<and> v \<le> 9"
  by (auto simp: digit_val_def digits_def split: if_splits)

lemma digit_val_not_colon: "digit_val c = Some v \<Longrightarrow> c \<noteq> CHR '':''"
  by (auto simp: digit_val_def digits_def split: if_splits)

lemma digit_val_inj: "digit_val c = Some v \<Longrightarrow> digit_val c' = Some v \<Longrightarrow> c = c'"
  by (auto simp: digit_val_def digits_def split: if_splits)

lemma digit_val_digits [simp]:
  "digit_val (CHR ''0'') = Some 0" "digit_val (CHR ''1'') = Some 1"
  "digit_val (CHR ''2'') = Some 2" "digit_val (CHR ''3'') = Some 3"
  "digit_val (CHR ''4'') = Some 4" "digit_val (CHR ''5'') = Some 5"
  "digit_val (CHR ''6'') = Some 6" "digit_val (CHR ''7'') = Some 7"
  "digit_val (CHR ''8'') = Some 8" "digit_val (CHR ''9'') = Some 9"
  "digit_val (CHR '':'') = None"
  by (simp_all add: digit_val_def digits_def)

lemma wf_hhmm_cases:
  assumes "wf_hhmm t"
  obtains a b d e h1 h2 m1 m2 where "t = [a, b, CHR '':'', d, e]"
    "digit_val a = Some h1" "digit_val b = Some h2" "digit_val d = Some m1" "digit_val e = Some m2"
    "10 * h1 + h2 \<le> 23" "10 * m1 + m2 \<le> 59"
  using assms unfolding wf_hhmm_def
  by (auto split: list.splits option.splits)

lemma minutes_of_digits:
  assumes "digit_val a = Some h1" "digit_val b = Some h2" "digit_val d = Some m1" "digit_val e = Some m2"
  shows "minutes_of [a, b, CHR '':'', d, e] = Num ((10 * h1 + h2) * 60 + (10 * m1 + m2))"
  using assms digit_val_not_colon[OF assms(1)] digit_val_not_colon[OF assms(2)]
    digit_val_not_colon[OF assms(3)] digit_val_not_colon[OF assms(4)]
  by (simp add: minutes_of_def js_Number_def)

lemma div60: "0 \<le> r \<Longrightarrow> r \<le> 59 \<Longrightarrow> (q * 60 + r) div 60 = (q::int)"
  by simp

lemma div10: "0 \<le> r \<Longrightarrow> r \<le> 9 \<Longrightarrow> (10 * q + r) div 10 = (q::int)"
  by simp

lemma split60:
  assumes "0 \<le> r" "r \<le> 59" "0 \<le> r'" "r' \<le> 59" "q * 60 + r = q' * 60 + r'"
  shows "q = q' \<and> (r::int) = r'"
proof -
  have "q = (q * 60 + r) div 60" using assms(1,2) by (simp add: div60)
  also have "\<dots> = (q' * 60 + r') div 60" using assms(5) by simp
  also have "\<dots> = q'" using assms(3,4) by (simp add: div60)
  finally have "q = q'" .
  with assms(5) show ?thesis by simp
qed

lemma split10:
  assumes "0 \<le> r" "r \<le> 9" "0 \<le> r'" "r' \<le> 9" "10 * q + r = 10 * q' + r'"
  shows "q = q' \<and> (r::int) = r'"
proof -
  have "q = (10 * q + r) div 10" using assms(1,2) by (simp add: div10)
  also have "\<dots> = (10 * q' + r') div 10" using assms(5) by simp
  also have "\<dots> = q'" using assms(3,4) by (simp add: div10)
  finally have "q = q'" .
  with assms(5) show ?thesis by simp
qed

lemma wf_hhmm_inj:
  assumes "wf_hhmm t" "wf_hhmm u" "minutes_of t = minutes_of u"
  shows "t = u"
proof -
  from assms(1) obtain a b d e h1 h2 m1 m2 where t: "t = [a, b, CHR '':'', d, e]"
    and dv: "digit_val a = Some h1" "digit_val b = Some h2" "digit_val d = Some m1" "digit_val e = Some m2"
    and bd: "10 * h1 + h2 \<le> 23" "10 * m1 + m2 \<le> 59"
    by (rule wf_hhmm_cases)
  from assms(2) obtain a' b' d' e' k1 k2 n1 n2 where u: "u = [a', b', CHR '':'', d', e']"
    and dv': "digit_val a' = Some k1" "digit_val b' = Some k2" "digit_val d' = Some n1" "digit_val e' = Some n2"
    and bd': "10 * k1 + k2 \<le> 23" "10 * n1 + n2 \<le> 59"
    by (rule wf_hhmm_cases)
  have r: "0 \<le> h1 \<and> h1 \<le> 9" "0 \<le> h2 \<and> h2 \<le> 9" "0 \<le> m1 \<and> m1 \<le> 9" "0 \<le> m2 \<and> m2 \<le> 9"
    using dv digit_val_range by blast+
  have r': "0 \<le> k1 \<and> k1 \<le> 9" "0 \<le> k2 \<and> k2 \<le> 9" "0 \<le> n1 \<and> n1 \<le> 9" "0 \<le> n2 \<and> n2 \<le> 9"
    using dv' digit_val_range by blast+
  have "minutes_of t = Num ((10 * h1 + h2) * 60 + (10 * m1 + m2))"
    unfolding t by (rule minutes_of_digits[OF dv])
  moreover have "minutes_of u = Num ((10 * k1 + k2) * 60 + (10 * n1 + n2))"
    unfolding u by (rule minutes_of_digits[OF dv'])
  ultimately have eq: "(10 * h1 + h2) * 60 + (10 * m1 + m2) = (10 * k1 + k2) * 60 + (10 * n1 + n2)"
    using assms(3) by simp
  have m0: "0 \<le> 10 * m1 + m2" "0 \<le> 10 * n1 + n2" using r(3,4) r'(3,4) by simp_all
  have HM: "10 * h1 + h2 = 10 * k1 + k2 \<and> 10 * m1 + m2 = 10 * n1 + n2"
    by (rule split60[OF m0(1) bd(2) m0(2) bd'(2) eq])
  have "h1 = k1 \<and> h2 = k2"
    by (rule split10) (use r r' HM in simp_all)
  moreover have "m1 = n1 \<and> m2 = n2"
    by (rule split10) (use r r' HM in simp_all)
  ultimately have "a = a'" "b = b'" "d = d'" "e = e'"
    using dv dv' digit_val_inj by blast+
  with t u show ?thesis by simp
qed

section \<open>The trip-creation handler on parsed times\<close>

lemma wf_hhmm_minutes:
  assumes "wf_hhmm t"
  shows "\<exists>n. minutes_of t = Num n \<and> 0 \<le> n \<and> n \<le> 1439"
proof -
  from assms obtain a b d e h1 h2 m1 m2 where t: "t = [a, b, CHR '':'', d, e]"
    and dv: "digit_val a = Some h1" "digit_val b = Some h2" "digit_val d = Some m1" "digit_val e = Some m2"
    and bd: "10 * h1 + h2 \<le> 23" "10 * m1 + m2 \<le> 59"
    by (rule wf_hhmm_cases)
  have m: "minutes_of t = Num ((10 * h1 + h2) * 60 + (10 * m1 + m2))"
    unfolding t by (rule minutes_of_digits[OF dv])
  from dv have "0 \<le> h1" "0 \<le> h2" "0 \<le> m1" "0 \<le> m2"
    using digit_val_range by blast+
  with bd have "0 \<le> (10 * h1 + h2) * 60 + (10 * m1 + m2)" "(10 * h1 + h2) * 60 + (10 * m1 + m2) \<le> 1439"
    by auto
  with m show ?thesis by blast
qed

lemma wf_hhmm_nonempty: "wf_hhmm t \<Longrightarrow> t \<noteq> []"
  by (auto simp: wf_hhmm_def)

lemma check_ligne_errors:
  assumes "check_ligne found a z = Some err"
  shows "(\<exists>x y. err = StartOutsideWindow x y) \<or> (\<exists>x. err = CannotEndAfter x)
         \<or> (\<exists>x. err = MustStartAtOrAfter x) \<or> (\<exists>x. err = MustEndBeforeOrAt x)"
  using assms
  by (auto simp: check_ligne_def Let_def split: option.splits if_splits)

lemma anti_duplication_errors:
  assumes "fst (anti_duplication e d b sens hdeb hfin) = Inl err"
  shows "\<exists>msg. err = Thrown msg"
  using assms
  by (auto simp: anti_duplication_def split: sum.splits option.splits)

lemma post_services_hierarchie_numeric:
  assumes "b_sensId b = Some sens" "sens \<noteq> []"
    and "b_heureDebut b = Some hdeb" "hdeb \<noteq> []" "b_heureFin b = Some hfin" "hfin \<noteq> []"
    and "minutes_of hdeb = Num s" "minutes_of hfin = Num f"
  shows "post_services_hierarchie e d b =
     (if (if f < s then (1440 - s) + f else f - s) > 600 then (Inl DurationExceeds, d, [])
      else if (if f < s then (1440 - s) + f else f - s) \<le> 0 then (Inl EndNotAfterStart, d, [])
      else (case prisma_ligne_findUnique e d (b_ligneId b) of
              Inl msg \<Rightarrow> (Inl (Thrown msg), d, [LigneFindUnique])
            | Inr found \<Rightarrow>
                (case check_ligne found (Num s) (Num f) of
                   Some err \<Rightarrow> (Inl err, d, [LigneFindUnique])
                 | None \<Rightarrow> anti_duplication e d b sens hdeb hfin)))"
  using assms by (simp add: post_services_hierarchie_def dureeService_def Let_def)

text \<open>Past the two duration checks the reply is a window error, a thrown error or a success.\<close>

lemma after_duration_errors:
  assumes "fst (case prisma_ligne_findUnique e d i of
              Inl msg \<Rightarrow> (Inl (Thrown msg), d, [LigneFindUnique])
            | Inr found \<Rightarrow>
                (case check_ligne found a z of
                   Some err \<Rightarrow> (Inl err, d, [LigneFindUnique])
                 | None \<Rightarrow> anti_duplication e d b sens hdeb hfin)) = Inl err"
  shows "err \<noteq> DurationExceeds \<and> err \<noteq> EndNotAfterStart \<and> err \<noteq> MissingFields"
proof (cases "prisma_ligne_findUnique e d i")
  case (Inl msg)
  with assms show ?thesis by auto
next
  case (Inr found)
  show ?thesis
  proof (cases "check_ligne found a z")
    case None
    with Inr assms have "fst (anti_duplication e d b sens hdeb hfin) = Inl err" by simp
    then show ?thesis using anti_duplication_errors by blast
  next
    case (Some er)
    with Inr assms have "er = err" by simp
    with Some show ?thesis using check_ligne_errors[of found a z err] by auto
  qed
qed

lemma dureeService_Num:
  "dureeService (Num s) (Num f) = Num (if f < s then (1440 - s) + f else f - s)"
  by (simp add: dureeService_def Let_def)

lemma minutes_of_Nil: "minutes_of [] = NaN"
  by (simp add: minutes_of_def)

lemma minutes_of_Num_nonempty: "minutes_of t = Num n \<Longrightarrow> t \<noteq> []"
  using minutes_of_Nil by auto

lemma check_ligne_day:
  assumes "l_heureDebut l = Some ld" "l_heureFin l = Some lf"
    and "minutes_of ld = Num a" "minutes_of lf = Num z" "a \<le> z"
  shows "check_ligne (Some l) (Num s) (Num f) =
           (if s < a then Some (MustStartAtOrAfter ld)
            else if z < f then Some (MustEndBeforeOrAt lf) else None)"
  using assms minutes_of_Num_nonempty[OF assms(3)] minutes_of_Num_nonempty[OF assms(4)]
  by (simp add: check_ligne_def Let_def)

lemma check_ligne_night:
  assumes "l_heureDebut l = Some ld" "l_heureFin l = Some lf"
    and "minutes_of ld = Num a" "minutes_of lf = Num z" "z < a"
  shows "check_ligne (Some l) (Num s) (Num f) =
           (if \<not> (a \<le> s \<or> s \<le> z) then Some (StartOutsideWindow ld lf)
            else if z < f \<and> a \<le> s \<and> f < s then Some (CannotEndAfter lf) else None)"
  using assms minutes_of_Num_nonempty[OF assms(3)] minutes_of_Num_nonempty[OF assms(4)]
  by (simp add: check_ligne_def Let_def)

lemma post_services_hierarchie_window:
  assumes "b_sensId b = Some sens" "sens \<noteq> []"
    and "b_heureDebut b = Some hdeb" "b_heureFin b = Some hfin"
    and "minutes_of hdeb = Num s" "minutes_of hfin = Num f"
    and "\<not> js_gt (dureeService (Num s) (Num f)) (Num 600)"
    and "\<not> js_le (dureeService (Num s) (Num f)) (Num 0)"
    and "prisma_ligne_findUnique e d (b_ligneId b) = Inr found"
  shows "post_services_hierarchie e d b =
           (case check_ligne found (Num s) (Num f) of
              Some err \<Rightarrow> (Inl err, d, [LigneFindUnique])
            | None \<Rightarrow> anti_duplication e d b sens hdeb hfin)"
  using assms minutes_of_Num_nonempty[OF assms(5)] minutes_of_Num_nonempty[OF assms(6)]
  by (simp add: post_services_hierarchie_def Let_def)

lemmas eval_defs = trip_def e0_def db_day_def db_night_def created_def minutes_of_def js_Number_def
  MAX_SAFE_INTEGER_def
  dureeService_def prisma_ligne_findUnique_def

lemma anti_duplication_fresh:
  "services d = [] \<Longrightarrow> anti_duplication e0 d (trip hdeb hfin) ''S1'' hdeb hfin
     = (Inr (Created (created hdeb hfin)), d\<lparr>services := [created hdeb hfin]\<rparr>,
        [LigneFindUnique, ServiceFindFirst, ServiceCreate])"
  by (simp add: anti_duplication_def prisma_service_findFirst_def prisma_service_create_def
      e0_def trip_def created_def)

lemma anti_duplication_effect:
  "(case anti_duplication e d b sens hdeb hfin of
      (Inr (Created row), d', cs) \<Rightarrow> writes cs = 1 \<and> d' = d\<lparr>services := services d @ [row]\<rparr>
    | (Inr (Duplicate row), d', cs) \<Rightarrow> writes cs = 0 \<and> d' = d \<and> row \<in> set (services d)
    | (Inl err, d', cs) \<Rightarrow> d' = d \<and> (case err of Thrown msg \<Rightarrow> True | _ \<Rightarrow> writes cs = 0))"
  by (auto simp: anti_duplication_def prisma_service_findFirst_def prisma_service_create_def
      writes_def find_Some_iff split: option.splits sum.splits)

lemma find_map_updated:
  "find (\<lambda>s. s_id s = i) xs = Some row \<Longrightarrow>
   find (\<lambda>s. s_id s = i) (map (\<lambda>s. if s_id s = i then s\<lparr>s_statut := st\<rparr> else s) xs)
     = Some (row\<lparr>s_statut := st\<rparr>)"
  by (induction xs) (auto split: if_splits)

text \<open>
  The duplicate lookup of a request that carries a date: a row is a duplicate exactly when
  it agrees in direction, date, start and end.
\<close>

lemma dated_request_lookup:
  assumes "b_date b = Some t"
    and "fault e ServiceFindFirst = None" "fault e ServiceCreate = None"
  shows "(\<forall>row \<in> set (services d).
            \<not> (s_sensId row = sens \<and> s_date row = t \<and> s_heureDebut row = hdeb \<and> s_heureFin row = hfin))
         \<longrightarrow> (\<exists>row. anti_duplication e d b sens hdeb hfin
                        = (Inr (Created row), d\<lparr>services := services d @ [row]\<rparr>,
                           [LigneFindUnique, ServiceFindFirst, ServiceCreate])
                   \<and> s_sensId row = sens \<and> s_date row = t \<and> s_heureDebut row = hdeb
                   \<and> s_heureFin row = hfin)"
    and "(\<exists>row \<in> set (services d).
            s_sensId row = sens \<and> s_date row = t \<and> s_heureDebut row = hdeb \<and> s_heureFin row = hfin)
         \<longrightarrow> (\<exists>row \<in> set (services d).
                   s_sensId row = sens \<and> s_date row = t \<and> s_heureDebut row = hdeb
                   \<and> s_heureFin row = hfin
                   \<and> anti_duplication e d b sens hdeb hfin
                        = (Inr (Duplicate row), d, [LigneFindUnique, ServiceFindFirst]))"
proof -
  let ?P = "\<lambda>s. s_sensId s = sens \<and> s_date s = t \<and> s_heureDebut s = hdeb \<and> s_heureFin s = hfin"
  have F: "prisma_service_findFirst e d sens (b_date b) hdeb hfin = Inr (find ?P (services d))"
    using assms by (simp add: prisma_service_findFirst_def)
  show "(\<forall>row \<in> set (services d). \<not> ?P row)
         \<longrightarrow> (\<exists>row. anti_duplication e d b sens hdeb hfin
                        = (Inr (Created row), d\<lparr>services := services d @ [row]\<rparr>,
                           [LigneFindUnique, ServiceFindFirst, ServiceCreate])
                   \<and> s_sensId row = sens \<and> s_date row = t \<and> s_heureDebut row = hdeb
                   \<and> s_heureFin row = hfin)"
  proof
    assume "\<forall>row \<in> set (services d). \<not> ?P row"
    then have "find ?P (services d) = None" by (simp add: find_None_iff)
    then show "\<exists>row. anti_duplication e d b sens hdeb hfin
                        = (Inr (Created row), d\<lparr>services := services d @ [row]\<rparr>,
                           [LigneFindUnique, ServiceFindFirst, ServiceCreate])
                   \<and> s_sensId row = sens \<and> s_date row = t \<and> s_heureDebut row = hdeb
                   \<and> s_heureFin row = hfin"
      using assms F by (simp add: anti_duplication_def prisma_service_create_def)
  qed
  show "(\<exists>row \<in> set (services d). ?P row)
         \<longrightarrow> (\<exists>row \<in> set (services d). s_sensId row = sens \<and> s_date row = t \<and> s_heureDebut row = hdeb
                   \<and> s_heureFin row = hfin
                   \<and> anti_duplication e d b sens hdeb hfin
                        = (Inr (Duplicate row), d, [LigneFindUnique, ServiceFindFirst]))"
  proof
    assume "\<exists>row \<in> set (services d). ?P row"
    then obtain row where r: "find ?P (services d) = Some row"
      by (cases "find ?P (services d)") (auto simp: find_None_iff)
    then have "row \<in> set (services d)" "?P row"
      by (auto simp: find_Some_iff)
    moreover have "anti_duplication e d b sens hdeb hfin
                        = (Inr (Duplicate row), d, [LigneFindUnique, ServiceFindFirst])"
      using F r by (simp add: anti_duplication_def)
    ultimately show "\<exists>row \<in> set (services d). s_sensId row = sens \<and> s_date row = t \<and> s_heureDebut row = hdeb
                   \<and> s_heureFin row = hfin
                   \<and> anti_duplication e d b sens hdeb hfin
                        = (Inr (Duplicate row), d, [LigneFindUnique, ServiceFindFirst])"
      by blast
  qed
qed

text \<open>
  What the window check does guarantee for a request that is answered with a trip: on a
  day window the start is not before the opening time and the end is not after the
  closing time (as times of day); on a night window the start is in one of the two open
  segments.
\<close>

lemma persisted_start_bounds:
  assumes "b_sensId b = Some sens" "sens \<noteq> []"
    and "b_heureDebut b = Some hdeb" "b_heureFin b = Some hfin"
    and "minutes_of hdeb = Num s" "minutes_of hfin = Num f"
    and "prisma_ligne_findUnique e d (b_ligneId b) = Inr (Some l)"
    and "l_heureDebut l = Some ld" "l_heureFin l = Some lf"
    and "minutes_of ld = Num a" "minutes_of lf = Num z"
    and "fst (post_services_hierarchie e d b) = Inr rep"
  shows "if a \<le> z then a \<le> s \<and> f \<le> z else a \<le> s \<or> s \<le> z"
proof -
  note ne = minutes_of_Num_nonempty[OF assms(5)] minutes_of_Num_nonempty[OF assms(6)]
  note P = post_services_hierarchie_numeric[OF assms(1,2,3) ne(1) assms(4) ne(2) assms(5,6),
      where e = e and d = d]
  have C: "check_ligne (Some l) (Num s) (Num f) = None"
    using assms(12) unfolding P assms(7)
    by (auto split: if_splits option.splits)
  show ?thesis
  proof (cases "a \<le> z")
    case True
    with C show ?thesis
      unfolding check_ligne_day[OF assms(8,9,10,11) True]
      by (auto split: if_splits)
  next
    case False
    then have "z < a" by simp
    with C False show ?thesis
      unfolding check_ligne_night[OF assms(8,9,10,11) \<open>z < a\<close>]
      by (auto split: if_splits)
  qed
qed

section \<open>The claims\<close>

text \<open>
  C1. For a request whose direction is present and whose start and end times are well
  formed, the duration is end - start when start <= end and (1440 - start) + end
  otherwise; the reply is the duration-exceeds-limit error exactly when that duration is
  above 600, and then the store is unchanged and no persistence call was made.
\<close>

theorem duration_limit:
  assumes "truthy (b_sensId b)"
    and "b_heureDebut b = Some hdeb" "b_heureFin b = Some hfin"
    and "wf_hhmm hdeb" "wf_hhmm hfin"
  shows "\<exists>s f. minutes_of hdeb = Num s \<and> minutes_of hfin = Num f
           \<and> dureeService (Num s) (Num f) = Num (if s \<le> f then f - s else (1440 - s) + f)
           \<and> (fst (post_services_hierarchie e d b) = Inl DurationExceeds
                \<longleftrightarrow> (if s \<le> f then f - s else (1440 - s) + f) > 600)
           \<and> (fst (post_services_hierarchie e d b) = Inl DurationExceeds
                \<longrightarrow> snd (post_services_hierarchie e d b) = (d, []))"
proof -
  from assms(4) obtain s where s: "minutes_of hdeb = Num s" using wf_hhmm_minutes by blast
  from assms(5) obtain f where f: "minutes_of hfin = Num f" using wf_hhmm_minutes by blast
  from assms(1) obtain sens where sens: "b_sensId b = Some sens" "sens \<noteq> []"
    by (cases "b_sensId b") auto
  note ne = wf_hhmm_nonempty[OF assms(4)] wf_hhmm_nonempty[OF assms(5)]
  note P = post_services_hierarchie_numeric[OF sens assms(2) ne(1) assms(3) ne(2) s f, where e = e and d = d]
  let ?du = "if s \<le> f then f - s else (1440 - s) + f"
  have du: "(if f < s then (1440 - s) + f else f - s) = ?du" by simp
  have 1: "dureeService (Num s) (Num f) = Num ?du"
    by (simp add: dureeService_Num)
  have 2: "fst (post_services_hierarchie e d b) = Inl DurationExceeds \<longleftrightarrow> ?du > 600"
  proof (cases "?du > 600")
    case True
    then show ?thesis unfolding P du by simp
  next
    case False
    show ?thesis
    proof (cases "?du \<le> 0")
      case True
      with False show ?thesis unfolding P du by simp
    next
      case pos: False
      have "fst (post_services_hierarchie e d b) \<noteq> Inl DurationExceeds"
        using after_duration_errors[where e = e and d = d and i = "b_ligneId b" and a = "Num s"
            and z = "Num f" and b = b and sens = sens and hdeb = hdeb and hfin = hfin
            and err = DurationExceeds]
          False pos unfolding P du by auto
      with False show ?thesis by simp
    qed
  qed
  have 3: "fst (post_services_hierarchie e d b) = Inl DurationExceeds
                \<longrightarrow> snd (post_services_hierarchie e d b) = (d, [])"
  proof
    assume "fst (post_services_hierarchie e d b) = Inl DurationExceeds"
    with 2 have "?du > 600" by simp
    then show "snd (post_services_hierarchie e d b) = (d, [])" unfolding P du by simp
  qed
  from s f 1 2 3 show ?thesis by blast
qed

theorem duration_limit_witness:
  "truthy (b_sensId (trip ''22:00'' ''09:00'')) \<and> wf_hhmm ''22:00'' \<and> wf_hhmm ''09:00''
   \<and> minutes_of ''22:00'' = Num 1320 \<and> minutes_of ''09:00'' = Num 540
   \<and> dureeService (Num 1320) (Num 540) = Num 660
   \<and> post_services_hierarchie e0 db0 (trip ''22:00'' ''09:00'') = (Inl DurationExceeds, db0, [])
   \<and> wf_hhmm ''05:00'' \<and> minutes_of ''05:00'' = Num 300
   \<and> dureeService (Num 1320) (Num 300) = Num 420
   \<and> fst (post_services_hierarchie e0 db0 (trip ''22:00'' ''05:00'')) \<noteq> Inl DurationExceeds"
  using duration_limit[of "trip ''22:00'' ''09:00''" "''22:00''" "''09:00''" e0 db0]
    duration_limit[of "trip ''22:00'' ''05:00''" "''22:00''" "''05:00''" e0 db0]
  by (simp add: wf_hhmm_def trip_def minutes_of_def js_Number_def dureeService_def
      post_services_hierarchie_def)

text \<open>
  C6. A request in which the direction, the start time or the end time is absent (or
  empty) is answered with the missing-field error, the store is unchanged and no
  persistence call is made: no line lookup, no duplicate lookup, no insertion.
\<close>

theorem missing_field:
  assumes "\<not> truthy (b_sensId b) \<or> \<not> truthy (b_heureDebut b) \<or> \<not> truthy (b_heureFin b)"
  shows "post_services_hierarchie e d b = (Inl MissingFields, d, [])"
proof -
  have "truthy x = (case x of None \<Rightarrow> False | Some s \<Rightarrow> s \<noteq> [])" for x
    by (cases x) simp_all
  with assms show ?thesis
    by (auto simp: post_services_hierarchie_def split: option.splits)
qed

theorem missing_field_witness:
  "\<not> truthy (b_sensId ((trip ''08:00'' ''09:00'')\<lparr>b_sensId := None\<rparr>))
   \<and> post_services_hierarchie e0 db_day ((trip ''08:00'' ''09:00'')\<lparr>b_sensId := None\<rparr>)
       = (Inl MissingFields, db_day, [])
   \<and> \<not> truthy (b_heureDebut ((trip ''08:00'' ''09:00'')\<lparr>b_heureDebut := None\<rparr>))
   \<and> post_services_hierarchie e0 db_day ((trip ''08:00'' ''09:00'')\<lparr>b_heureDebut := None\<rparr>)
       = (Inl MissingFields, db_day, [])
   \<and> \<not> truthy (b_heureFin (trip ''08:00'' []))
   \<and> post_services_hierarchie e0 db_day (trip ''08:00'' [])
       = (Inl MissingFields, db_day, [])"
  using missing_field[of "(trip ''08:00'' ''09:00'')\<lparr>b_sensId := None\<rparr>" e0 db_day]
    missing_field[of "(trip ''08:00'' ''09:00'')\<lparr>b_heureDebut := None\<rparr>" e0 db_day]
    missing_field[of "trip ''08:00'' []" e0 db_day]
  by (simp add: trip_def)

text \<open>
  C9 (as amended). For a request whose direction is present and whose start and end are
  well-formed times of day (hour at most 23, minute at most 59), the end-before-start
  error is the reply exactly when the start and end times are equal. When the end is
  earlier than the start the duration is (1440 - start) + end, which is positive, and the
  reply is not that error. The handler does not check the range of the hour: from 30:00
  to 05:00 the reinterpreted duration is -60 and from 24:00 to 00:00 it is 0, and both
  requests are answered with the end-before-start error although the end precedes the
  start.
\<close>

theorem end_before_start:
  assumes "truthy (b_sensId b)"
    and "b_heureDebut b = Some hdeb" "b_heureFin b = Some hfin"
    and "wf_hhmm hdeb" "wf_hhmm hfin"
  shows "\<exists>s f. minutes_of hdeb = Num s \<and> minutes_of hfin = Num f
           \<and> (fst (post_services_hierarchie e d b) = Inl EndNotAfterStart \<longleftrightarrow> hdeb = hfin)
           \<and> (f < s \<longrightarrow> dureeService (Num s) (Num f) = Num ((1440 - s) + f)
                          \<and> 0 < (1440 - s) + f
                          \<and> fst (post_services_hierarchie e d b) \<noteq> Inl EndNotAfterStart)"
proof -
  from assms(4) obtain s where s: "minutes_of hdeb = Num s" "0 \<le> s" "s \<le> 1439"
    using wf_hhmm_minutes by blast
  from assms(5) obtain f where f: "minutes_of hfin = Num f" "0 \<le> f" "f \<le> 1439"
    using wf_hhmm_minutes by blast
  from assms(1) obtain sens where sens: "b_sensId b = Some sens" "sens \<noteq> []"
    by (cases "b_sensId b") auto
  note ne = wf_hhmm_nonempty[OF assms(4)] wf_hhmm_nonempty[OF assms(5)]
  note P = post_services_hierarchie_numeric[OF sens assms(2) ne(1) assms(3) ne(2) s(1) f(1),
      where e = e and d = d]
  let ?du = "if f < s then (1440 - s) + f else f - s"
  have same: "hdeb = hfin \<longleftrightarrow> s = f"
    using wf_hhmm_inj[OF assms(4,5)] s(1) f(1) by auto
  have zero: "?du = 0 \<longleftrightarrow> s = f" using s f by auto
  have nonneg: "0 \<le> ?du" using s f by auto
  have 1: "fst (post_services_hierarchie e d b) = Inl EndNotAfterStart \<longleftrightarrow> ?du = 0"
  proof (cases "?du > 600")
    case True
    then show ?thesis unfolding P by simp
  next
    case False
    show ?thesis
    proof (cases "?du \<le> 0")
      case True
      with False nonneg show ?thesis unfolding P by simp
    next
      case pos: False
      have "fst (post_services_hierarchie e d b) \<noteq> Inl EndNotAfterStart"
        using after_duration_errors[where e = e and d = d and i = "b_ligneId b" and a = "Num s"
            and z = "Num f" and b = b and sens = sens and hdeb = hdeb and hfin = hfin
            and err = EndNotAfterStart]
          False pos unfolding P by auto
      with pos show ?thesis by simp
    qed
  qed
  have 2: "fst (post_services_hierarchie e d b) = Inl EndNotAfterStart \<longleftrightarrow> hdeb = hfin"
    using 1 zero same by simp
  have 3: "f < s \<longrightarrow> dureeService (Num s) (Num f) = Num ((1440 - s) + f)
                          \<and> 0 < (1440 - s) + f
                          \<and> fst (post_services_hierarchie e d b) \<noteq> Inl EndNotAfterStart"
  proof
    assume lt: "f < s"
    then have "hdeb \<noteq> hfin" using same by simp
    with 2 have "fst (post_services_hierarchie e d b) \<noteq> Inl EndNotAfterStart" by simp
    moreover have "0 < (1440 - s) + f" using s f by simp
    moreover have "dureeService (Num s) (Num f) = Num ((1440 - s) + f)"
      using lt by (simp add: dureeService_Num)
    ultimately show "dureeService (Num s) (Num f) = Num ((1440 - s) + f)
                          \<and> 0 < (1440 - s) + f
                          \<and> fst (post_services_hierarchie e d b) \<noteq> Inl EndNotAfterStart"
      by simp
  qed
  from s(1) f(1) 2 3 show ?thesis by blast
qed

theorem end_before_start_witness:
  "truthy (b_sensId (trip ''22:00'' ''05:00'')) \<and> wf_hhmm ''22:00'' \<and> wf_hhmm ''05:00''
   \<and> minutes_of ''22:00'' = Num 1320 \<and> minutes_of ''05:00'' = Num 300
   \<and> dureeService (Num 1320) (Num 300) = Num 420
   \<and> fst (post_services_hierarchie e0 db0 (trip ''22:00'' ''05:00'')) \<noteq> Inl EndNotAfterStart
   \<and> fst (post_services_hierarchie e0 db0 (trip ''07:30'' ''07:30'')) = Inl EndNotAfterStart"
  using end_before_start[of "trip ''22:00'' ''05:00''" "''22:00''" "''05:00''" e0 db0]
    end_before_start[of "trip ''07:30'' ''07:30''" "''07:30''" "''07:30''" e0 db0]
  by (simp add: wf_hhmm_def trip_def minutes_of_def js_Number_def dureeService_def)

theorem hour_out_of_range_counterexample:
  "minutes_of ''30:00'' = Num 1800 \<and> minutes_of ''05:00'' = Num 300
   \<and> dureeService (Num 1800) (Num 300) = Num (- 60)
   \<and> ''30:00'' \<noteq> ''05:00''
   \<and> post_services_hierarchie e0 db0 (trip ''30:00'' ''05:00'') = (Inl EndNotAfterStart, db0, [])
   \<and> minutes_of ''24:00'' = Num 1440 \<and> minutes_of ''00:00'' = Num 0
   \<and> dureeService (Num 1440) (Num 0) = Num 0
   \<and> ''24:00'' \<noteq> ''00:00''
   \<and> post_services_hierarchie e0 db0 (trip ''24:00'' ''00:00'') = (Inl EndNotAfterStart, db0, [])"
  by (simp add: post_services_hierarchie_def trip_def minutes_of_def js_Number_def
      dureeService_def)

text \<open>
  C2 (as amended). For a request that has passed the missing-field and duration checks and
  whose line is found with both window times set and the closing time not before the
  opening time: the reply is the start-before-line-opens error if the trip starts before
  the line opens; otherwise it is the end-after-line-closes error if the trip ends after
  the line closes; otherwise the handler goes on to the duplicate lookup. With the window
  08:00-20:00 a trip 07:00-09:00 gets the start error, a trip 12:00-21:00 the end error and
  a trip 09:00-10:00 is created. A trip 09:00-21:00 lasts 720 minutes and is answered with
  the duration error before the window is looked at.
\<close>

theorem day_window:
  assumes "b_sensId b = Some sens" "sens \<noteq> []"
    and "b_heureDebut b = Some hdeb" "b_heureFin b = Some hfin"
    and "minutes_of hdeb = Num s" "minutes_of hfin = Num f"
    and "\<not> js_gt (dureeService (Num s) (Num f)) (Num 600)"
    and "\<not> js_le (dureeService (Num s) (Num f)) (Num 0)"
    and "prisma_ligne_findUnique e d (b_ligneId b) = Inr (Some l)"
    and "l_heureDebut l = Some ld" "l_heureFin l = Some lf"
    and "minutes_of ld = Num a" "minutes_of lf = Num z" "a \<le> z"
    and "s \<le> MAX_SAFE_INTEGER" "f \<le> MAX_SAFE_INTEGER"
    and "a \<le> MAX_SAFE_INTEGER" "z \<le> MAX_SAFE_INTEGER"
  shows "post_services_hierarchie e d b =
           (if s < a then (Inl (MustStartAtOrAfter ld), d, [LigneFindUnique])
            else if z < f then (Inl (MustEndBeforeOrAt lf), d, [LigneFindUnique])
            else anti_duplication e d b sens hdeb hfin)"
  unfolding post_services_hierarchie_window[OF assms(1-9)] check_ligne_day[OF assms(10-14)]
  by simp

theorem day_window_witness:
  "post_services_hierarchie e0 db_day (trip ''07:00'' ''09:00'')
     = (Inl (MustStartAtOrAfter ''08:00''), db_day, [LigneFindUnique])
   \<and> post_services_hierarchie e0 db_day (trip ''12:00'' ''21:00'')
     = (Inl (MustEndBeforeOrAt ''20:00''), db_day, [LigneFindUnique])
   \<and> post_services_hierarchie e0 db_day (trip ''09:00'' ''10:00'')
     = (Inr (Created (created ''09:00'' ''10:00'')),
        db_day\<lparr>services := [created ''09:00'' ''10:00'']\<rparr>,
        [LigneFindUnique, ServiceFindFirst, ServiceCreate])"
proof -
  have l: "prisma_ligne_findUnique e0 db_day (b_ligneId (trip x y))
             = Inr (Some \<lparr> l_id = ''L1'', l_heureDebut = Some ''08:00'', l_heureFin = Some ''20:00'' \<rparr>)"
    for x y by (simp add: eval_defs)
  have 1: "post_services_hierarchie e0 db_day (trip ''07:00'' ''09:00'')
     = (Inl (MustStartAtOrAfter ''08:00''), db_day, [LigneFindUnique])"
    using day_window[where b = "trip ''07:00'' ''09:00''" and sens = "''S1''" and s = 420 and f = 540
        and a = 480 and z = 1200 and e = e0 and d = db_day, OF _ _ _ _ _ _ _ _ l]
    by (simp add: eval_defs)
  have 2: "post_services_hierarchie e0 db_day (trip ''12:00'' ''21:00'')
     = (Inl (MustEndBeforeOrAt ''20:00''), db_day, [LigneFindUnique])"
    using day_window[where b = "trip ''12:00'' ''21:00''" and sens = "''S1''" and s = 720 and f = 1260
        and a = 480 and z = 1200 and e = e0 and d = db_day, OF _ _ _ _ _ _ _ _ l]
    by (simp add: eval_defs)
  have 3: "post_services_hierarchie e0 db_day (trip ''09:00'' ''10:00'')
     = anti_duplication e0 db_day (trip ''09:00'' ''10:00'') ''S1'' ''09:00'' ''10:00''"
    using day_window[where b = "trip ''09:00'' ''10:00''" and sens = "''S1''" and s = 540 and f = 600
        and a = 480 and z = 1200 and e = e0 and d = db_day, OF _ _ _ _ _ _ _ _ l]
    by (simp add: eval_defs)
  have 4: "services db_day = []" by (simp add: db_day_def)
  show ?thesis unfolding 1 2 3 anti_duplication_fresh[OF 4] by simp
qed

theorem long_day_trip_counterexample:
  "post_services_hierarchie e0 db_day (trip ''09:00'' ''21:00'') = (Inl DurationExceeds, db_day, [])
   \<and> fst (post_services_hierarchie e0 db_day (trip ''09:00'' ''21:00''))
       \<noteq> Inl (MustEndBeforeOrAt ''20:00'')"
  by (simp add: post_services_hierarchie_def eval_defs)

text \<open>
  C3. For a request that has passed the missing-field and duration checks and whose line
  is found with a window that wraps midnight (closing time before opening time): the
  reply is the start-outside-window error exactly when the start is neither at or after
  the opening time nor at or before the closing time; otherwise, when the trip itself
  wraps midnight, starts at or after the opening time and ends after the closing time,
  the reply is the end-after-line-closes error; otherwise the handler goes on to the
  duplicate lookup.
\<close>

theorem night_window:
  assumes "b_sensId b = Some sens" "sens \<noteq> []"
    and "b_heureDebut b = Some hdeb" "b_heureFin b = Some hfin"
    and "minutes_of hdeb = Num s" "minutes_of hfin = Num f"
    and "\<not> js_gt (dureeService (Num s) (Num f)) (Num 600)"
    and "\<not> js_le (dureeService (Num s) (Num f)) (Num 0)"
    and "prisma_ligne_findUnique e d (b_ligneId b) = Inr (Some l)"
    and "l_heureDebut l = Some ld" "l_heureFin l = Some lf"
    and "minutes_of ld = Num a" "minutes_of lf = Num z" "z < a"
    and "s \<le> MAX_SAFE_INTEGER" "f \<le> MAX_SAFE_INTEGER"
    and "a \<le> MAX_SAFE_INTEGER" "z \<le> MAX_SAFE_INTEGER"
  shows "post_services_hierarchie e d b =
           (if \<not> (a \<le> s \<or> s \<le> z) then (Inl (StartOutsideWindow ld lf), d, [LigneFindUnique])
            else if z < f \<and> a \<le> s \<and> f < s then (Inl (CannotEndAfter lf), d, [LigneFindUnique])
            else anti_duplication e d b sens hdeb hfin)"
  unfolding post_services_hierarchie_window[OF assms(1-9)] check_ligne_night[OF assms(10-14)]
  by simp

theorem night_window_witness:
  "post_services_hierarchie e0 db_night (trip ''01:00'' ''02:00'')
     = (Inr (Created (created ''01:00'' ''02:00'')),
        db_night\<lparr>services := [created ''01:00'' ''02:00'']\<rparr>,
        [LigneFindUnique, ServiceFindFirst, ServiceCreate])
   \<and> post_services_hierarchie e0 db_night (trip ''03:00'' ''04:00'')
     = (Inl (StartOutsideWindow ''05:00'' ''02:00''), db_night, [LigneFindUnique])
   \<and> post_services_hierarchie e0 db_night (trip ''22:00'' ''23:00'')
     = (Inr (Created (created ''22:00'' ''23:00'')),
        db_night\<lparr>services := [created ''22:00'' ''23:00'']\<rparr>,
        [LigneFindUnique, ServiceFindFirst, ServiceCreate])
   \<and> post_services_hierarchie e0 db_night (trip ''22:00'' ''03:00'')
     = (Inl (CannotEndAfter ''02:00''), db_night, [LigneFindUnique])"
proof -
  have l: "prisma_ligne_findUnique e0 db_night (b_ligneId (trip x y))
             = Inr (Some \<lparr> l_id = ''L1'', l_heureDebut = Some ''05:00'', l_heureFin = Some ''02:00'' \<rparr>)"
    for x y by (simp add: eval_defs)
  have 1: "post_services_hierarchie e0 db_night (trip ''01:00'' ''02:00'')
     = anti_duplication e0 db_night (trip ''01:00'' ''02:00'') ''S1'' ''01:00'' ''02:00''"
    using night_window[where b = "trip ''01:00'' ''02:00''" and sens = "''S1''" and s = 60 and f = 120
        and a = 300 and z = 120 and e = e0 and d = db_night, OF _ _ _ _ _ _ _ _ l]
    by (simp add: eval_defs)
  have 2: "post_services_hierarchie e0 db_night (trip ''03:00'' ''04:00'')
     = (Inl (StartOutsideWindow ''05:00'' ''02:00''), db_night, [LigneFindUnique])"
    using night_window[where b = "trip ''03:00'' ''04:00''" and sens = "''S1''" and s = 180 and f = 240
        and a = 300 and z = 120 and e = e0 and d = db_night, OF _ _ _ _ _ _ _ _ l]
    by (simp add: eval_defs)
  have 3: "post_services_hierarchie e0 db_night (trip ''22:00'' ''23:00'')
     = anti_duplication e0 db_night (trip ''22:00'' ''23:00'') ''S1'' ''22:00'' ''23:00''"
    using night_window[where b = "trip ''22:00'' ''23:00''" and sens = "''S1''" and s = 1320 and f = 1380
        and a = 300 and z = 120 and e = e0 and d = db_night, OF _ _ _ _ _ _ _ _ l]
    by (simp add: eval_defs)
  have 4: "post_services_hierarchie e0 db_night (trip ''22:00'' ''03:00'')
     = (Inl (CannotEndAfter ''02:00''), db_night, [LigneFindUnique])"
    using night_window[where b = "trip ''22:00'' ''03:00''" and sens = "''S1''" and s = 1320 and f = 180
        and a = 300 and z = 120 and e = e0 and d = db_night, OF _ _ _ _ _ _ _ _ l]
    by (simp add: eval_defs)
  have 5: "services db_night = []" by (simp add: db_night_def)
  show ?thesis unfolding 1 2 3 4 anti_duplication_fresh[OF 5] by simp
qed

text \<open>
  C7. The claim: with an operating window declared, a trip is stored only if its start lies
  inside the window. The handler does not keep it for a day window: the branch for a
  window that does not wrap compares the start with the opening time and the end with the
  closing time, and a trip that crosses midnight has a small end. On the line 08:00-20:00
  the trip 21:00-01:00 (240 minutes) is created although it starts after the line closes.
\<close>

theorem night_trip_on_day_line:
  "minutes_of ''21:00'' = Num 1260 \<and> minutes_of ''08:00'' = Num 480 \<and> minutes_of ''20:00'' = Num 1200
   \<and> post_services_hierarchie e0 db_day (trip ''21:00'' ''01:00'')
     = (Inr (Created (created ''21:00'' ''01:00'')),
        db_day\<lparr>services := [created ''21:00'' ''01:00'']\<rparr>,
        [LigneFindUnique, ServiceFindFirst, ServiceCreate])"
  by (simp add: post_services_hierarchie_def check_ligne_def anti_duplication_def
      prisma_service_findFirst_def prisma_service_create_def eval_defs)

text \<open>
  C4. The claim: a request is a duplicate only of a trip with the same direction, date,
  start and end, and a request that differs from every stored trip in one of the four
  performs a new write. A request without a date is stored with the current instant as
  its date, but its lookup carries no date filter. With a trip stored for 1 January (day
  19723 of the epoch) and the clock on 1 March (day 19783), the undated request is
  answered with the January trip flagged duplicate and nothing is written; the row the
  handler would insert is dated in March.
\<close>

theorem undated_request_matches_other_date:
  "s_date stored_trip div 86400000 = 19723 \<and> now e_march div 86400000 = 19783
   \<and> b_date undated = None
   \<and> post_services_hierarchie e_march db_january undated
     = (Inr (Duplicate stored_trip), db_january, [LigneFindUnique, ServiceFindFirst])
   \<and> post_services_hierarchie e_march db_day undated
     = (Inr (Created (stored_trip\<lparr>s_id := ''new'', s_date := 1709294400000\<rparr>)),
        db_day\<lparr>services := [stored_trip\<lparr>s_id := ''new'', s_date := 1709294400000\<rparr>]\<rparr>,
        [LigneFindUnique, ServiceFindFirst, ServiceCreate])"
  by (simp add: post_services_hierarchie_def check_ligne_def anti_duplication_def
      prisma_service_findFirst_def prisma_service_create_def prisma_ligne_findUnique_def
      stored_trip_def db_january_def e_march_def undated_def trip_def db_day_def
      minutes_of_def js_Number_def dureeService_def)

text \<open>
  C5. Every run of the handler: when a trip is created there is one insertion and the
  store is the old one with that row appended; when a duplicate is returned there is no
  insertion and the store is unchanged; when an error is returned the store is unchanged,
  and there is no insertion unless the error is one thrown by a persistence call.
\<close>

theorem write_counts:
  "(case post_services_hierarchie e d b of
      (Inr (Created row), d', cs) \<Rightarrow> writes cs = 1 \<and> d' = d\<lparr>services := services d @ [row]\<rparr>
    | (Inr (Duplicate row), d', cs) \<Rightarrow> writes cs = 0 \<and> d' = d \<and> row \<in> set (services d)
    | (Inl err, d', cs) \<Rightarrow> d' = d \<and> (case err of Thrown msg \<Rightarrow> True | _ \<Rightarrow> writes cs = 0))"
proof -
  have A: "post_services_hierarchie e d b = anti_duplication e d b sens hdeb hfin \<Longrightarrow> ?thesis"
    for sens hdeb hfin
    using anti_duplication_effect[where e = e and d = d and b = b and sens = sens
        and hdeb = hdeb and hfin = hfin] by simp
  have B: "post_services_hierarchie e d b = (Inl err, d, cs) \<Longrightarrow> writes cs = 0 \<Longrightarrow> ?thesis"
    for err cs
    by (simp split: error.splits)
  have w: "writes [] = 0" "writes [LigneFindUnique] = 0" by (simp_all add: writes_def)
  show ?thesis
  proof (cases "\<exists>sens hdeb hfin. post_services_hierarchie e d b = anti_duplication e d b sens hdeb hfin")
    case True
    then obtain sens hdeb hfin
      where "post_services_hierarchie e d b = anti_duplication e d b sens hdeb hfin"
      by blast
    then show ?thesis by (rule A)
  next
    case False
    then have "\<exists>err cs. post_services_hierarchie e d b = (Inl err, d, cs) \<and> writes cs = 0"
      using w
      by (auto simp: post_services_hierarchie_def Let_def split: option.splits sum.splits if_splits)
        blast
    then obtain err cs
      where "post_services_hierarchie e d b = (Inl err, d, cs)" "writes cs = 0"
      by blast
    then show ?thesis by (rule B)
  qed
qed

theorem write_counts_witness:
  "post_services_hierarchie e0 db_day (trip ''08:00'' ''09:00'')
     = (Inr (Created (created ''08:00'' ''09:00'')), db_dup,
        [LigneFindUnique, ServiceFindFirst, ServiceCreate])
   \<and> writes [LigneFindUnique, ServiceFindFirst, ServiceCreate] = 1
   \<and> db_dup = db_day\<lparr>services := services db_day @ [created ''08:00'' ''09:00'']\<rparr>
   \<and> post_services_hierarchie e0 db_dup (trip ''08:00'' ''09:00'')
     = (Inr (Duplicate (created ''08:00'' ''09:00'')), db_dup, [LigneFindUnique, ServiceFindFirst])
   \<and> writes [LigneFindUnique, ServiceFindFirst] = 0
   \<and> post_services_hierarchie e0 db_dup (trip ''07:00'' ''09:00'')
     = (Inl (MustStartAtOrAfter ''08:00''), db_dup, [LigneFindUnique])
   \<and> writes [LigneFindUnique] = 0"
  using write_counts[where e = e0 and d = db_day and b = "trip ''08:00'' ''09:00''"]
    write_counts[where e = e0 and d = db_dup and b = "trip ''08:00'' ''09:00''"]
    write_counts[where e = e0 and d = db_dup and b = "trip ''07:00'' ''09:00''"]
  by (simp add: post_services_hierarchie_def check_ligne_def anti_duplication_def db_dup_def
      prisma_service_findFirst_def prisma_service_create_def writes_def eval_defs)

text \<open>
  C10. In the check-in handler, when the required fields are present, the service exists,
  its update succeeds and the insertion of the check-in row then throws: the reply is the
  thrown error, the update came before the insertion, the store keeps the service marked
  finished, no check-in row was added, and so the store differs from the one before the
  request whenever the service was not already marked finished.
\<close>

theorem pointage_failure_keeps_status:
  assumes "pb_serviceId b = Some sid" "sid \<noteq> []"
    and "pb_conducteurId b = Some cid" "cid \<noteq> []"
    and "pb_validatedBy b = Some vb" "vb \<noteq> []"
    and "find (\<lambda>s. s_id s = sid) (services d) = Some row"
    and "fault e ServiceUpdate = None" "fault e PointageCreate = Some msg"
  shows "post_pointages e d b =
           (Inl (Thrown msg),
            d\<lparr>services := map (\<lambda>s. if s_id s = sid then s\<lparr>s_statut := Terminee\<rparr> else s) (services d)\<rparr>,
            [ServiceUpdate, PointageCreate])
         \<and> pointages (fst (snd (post_pointages e d b))) = pointages d
         \<and> find (\<lambda>s. s_id s = sid) (services (fst (snd (post_pointages e d b))))
             = Some (row\<lparr>s_statut := Terminee\<rparr>)
         \<and> (s_statut row \<noteq> Terminee \<longrightarrow> fst (snd (post_pointages e d b)) \<noteq> d)"
proof -
  let ?d1 = "d\<lparr>services := map (\<lambda>s. if s_id s = sid then s\<lparr>s_statut := Terminee\<rparr> else s) (services d)\<rparr>"
  have P: "post_pointages e d b = (Inl (Thrown msg), ?d1, [ServiceUpdate, PointageCreate])"
    using assms
    by (simp add: post_pointages_def missing_def prisma_service_update_def
        prisma_pointage_create_def)
  have F: "find (\<lambda>s. s_id s = sid) (services ?d1) = Some (row\<lparr>s_statut := Terminee\<rparr>)"
    using find_map_updated[OF assms(7)] by simp
  have N: "s_statut row \<noteq> Terminee \<longrightarrow> ?d1 \<noteq> d"
  proof
    assume ne: "s_statut row \<noteq> Terminee"
    show "?d1 \<noteq> d"
    proof
      assume "?d1 = d"
      then have "find (\<lambda>s. s_id s = sid) (services ?d1) = find (\<lambda>s. s_id s = sid) (services d)"
        by simp
      with F assms(7) have "row\<lparr>s_statut := Terminee\<rparr> = row" by simp
      then have "s_statut (row\<lparr>s_statut := Terminee\<rparr>) = s_statut row" by simp
      with ne show False by simp
    qed
  qed
  show ?thesis unfolding P using F N by simp
qed

theorem pointage_failure_keeps_status_witness:
  "post_pointages e_fail db_dup pb0 =
     (Inl (Thrown ''Foreign key constraint failed''),
      db_day\<lparr>services := [(created ''08:00'' ''09:00'')\<lparr>s_statut := Terminee\<rparr>]\<rparr>,
      [ServiceUpdate, PointageCreate])
   \<and> pointages (fst (snd (post_pointages e_fail db_dup pb0))) = []
   \<and> s_statut (created ''08:00'' ''09:00'') \<noteq> Terminee
   \<and> fst (snd (post_pointages e_fail db_dup pb0)) \<noteq> db_dup"
  using pointage_failure_keeps_status[where b = pb0 and sid = "''new''" and cid = "''C1''"
      and vb = "''Chef''" and d = db_dup and row = "created ''08:00'' ''09:00''" and e = e_fail
      and msg = "''Foreign key constraint failed''"]
  by (simp add: pb0_def e_fail_def db_dup_def db_day_def created_def Planifiee_def Terminee_def)

text \<open>
  C8 (as amended). While the flag is false, a request whose path is outside the allowlist
  never reaches the routes: the readiness middleware answers it 503, unless an earlier
  middleware has answered it already (200 for an OPTIONS preflight, 500 from the error
  handler for a body the JSON parser refuses). The flag goes from false to true in one
  way only: \<^verbatim>\<open>startServer\<close> with a constructed client and a successful probe.
\<close>

theorem readiness:
  "(\<not> prismaReady s \<and> req_path r \<notin> set noDbPaths \<longrightarrow>
      step s (Request r)
        = (s, Some (Responded (if req_method r = ''OPTIONS'' then 200
                               else if \<not> req_json_ok r then 500 else 503)))
      \<and> snd (step s (Request r)) \<noteq> Some Routed)
   \<and> ((\<not> prismaReady s \<and> prismaReady (fst (step s ev)))
        = (\<not> prismaReady s \<and> prisma s \<and> ev = Start ProbeOk))"
proof -
  have 1: "\<not> prismaReady s \<and> req_path r \<notin> set noDbPaths \<longrightarrow>
      step s (Request r)
        = (s, Some (Responded (if req_method r = ''OPTIONS'' then 200
                               else if \<not> req_json_ok r then 500 else 503)))
      \<and> snd (step s (Request r)) \<noteq> Some Routed"
    by (simp add: middleware_def cors_headers_def json_parser_def db_guard_def)
  have 2: "(\<not> prismaReady s \<and> prismaReady (fst (step s ev)))
        = (\<not> prismaReady s \<and> prisma s \<and> ev = Start ProbeOk)"
  proof (cases ev)
    case (Start p)
    then show ?thesis by (cases p) (auto simp: startServer_def)
  next
    case (Request q)
    then show ?thesis by simp
  qed
  from 1 2 show ?thesis by simp
qed

theorem readiness_witness:
  "\<not> prismaReady (boot True) \<and> req_path list_vehicles \<notin> set noDbPaths
   \<and> step (boot True) (Request list_vehicles) = (boot True, Some (Responded 503))
   \<and> prismaReady (fst (step (boot True) (Start ProbeOk)))
   \<and> \<not> prismaReady (fst (step (boot True) (Start ProbeTimeout)))
   \<and> \<not> prismaReady (fst (step (boot False) (Start ProbeOk)))
   \<and> step (fst (step (boot True) (Start ProbeOk))) (Request list_vehicles)
       = (fst (step (boot True) (Start ProbeOk)), Some Routed)"
  using readiness[of "boot True" list_vehicles "Start ProbeOk"]
    readiness[of "boot True" list_vehicles "Start ProbeTimeout"]
    readiness[of "boot False" list_vehicles "Start ProbeOk"]
  by (simp add: list_vehicles_def noDbPaths_def boot_def middleware_def cors_headers_def
      json_parser_def db_guard_def startServer_def)

theorem preflight_counterexample:
  "req_path preflight \<notin> set noDbPaths
   \<and> step (boot True) (Request preflight) = (boot True, Some (Responded 200))"
  by (simp add: preflight_def noDbPaths_def boot_def middleware_def cors_headers_def)

end
